theory Spec2Isabelle
  imports Complex_Main "HOL-Library.List_Lexorder" "HOL-Library.Multiset"
begin

section \<open>Python values and library functions\<close>

text \<open>
  A Python \<open>str\<close> is a sequence of Unicode code points, and \<open>ord\<close>, \<open>==\<close> and \<open><\<close> on strings
  work on code points. A code point is a natural number, a string a list of them; the order on
  strings is the lexicographic order of lists, which is the order Python's \<open><\<close> computes.
\<close>

type_synonym codepoint = nat
type_synonym ustring = "codepoint list"

definition ustr :: "string \<Rightarrow> ustring" where
  "ustr s = map of_char s"

datatype py_error = ValueError | KeyError | TypeError | OverflowError

text \<open>A value read from a CSV row or a JSON object: \<open>None\<close> or a string.\<close>

datatype pyval = PyNone | PyStr ustring

text \<open>
  A float is a finite number (kept as the rational it denotes), an infinity or a NaN.
\<close>

datatype pyfloat = Finite rat | PosInf | NegInf | NaN

text \<open>
  The functions of the Python library that the two scripts call are parameters of the model:
  \<^item> \<open>nfd s\<close> is \<open>unicodedata.normalize('NFD', s)\<close>;
  \<^item> \<open>category c\<close> is \<open>unicodedata.category(c)\<close>, a two-letter general category;
  \<^item> \<open>str_lower c\<close> is \<open>c.lower()\<close> for a one-character string \<open>c\<close>; the result is a
    string, which full case mapping can make longer than one character;
  \<^item> \<open>float_str s\<close> is \<open>float(s)\<close> for a string \<open>s\<close>, \<open>None\<close> when it raises ValueError.
\<close>

record pylib =
  nfd :: "ustring \<Rightarrow> ustring"
  category :: "codepoint \<Rightarrow> string"
  str_lower :: "codepoint \<Rightarrow> ustring"
  float_str :: "ustring \<Rightarrow> pyfloat option"

text \<open>\<open>ord(s)\<close> raises TypeError unless \<open>s\<close> has exactly one character.\<close>

fun py_ord :: "ustring \<Rightarrow> py_error + codepoint" where
  "py_ord [c] = Inr c"
| "py_ord s = Inl TypeError"

section \<open>generate_city_datasets.py: normalize_city_name\<close>

definition generate_transliteration_map :: "(codepoint \<times> ustring) list" where
  "generate_transliteration_map =
     [(0x110, ustr ''D''), (0x111, ustr ''d''),
      (0xD0, ustr ''D''), (0xF0, ustr ''d''),
      (0xD8, ustr ''O''), (0xF8, ustr ''o''),
      (0xC6, ustr ''AE''), (0xE6, ustr ''ae''),
      (0x152, ustr ''OE''), (0x153, ustr ''oe''),
      (0x1E9E, ustr ''SS''), (0xDF, ustr ''ss''),
      (0xDE, ustr ''TH''), (0xFE, ustr ''th''),
      (0x141, ustr ''L''), (0x142, ustr ''l'')]"

text \<open>Step 1, the loop over \<open>name\<close> that appends to \<open>result\<close>.\<close>

fun generate_transliterate :: "ustring \<Rightarrow> ustring list \<Rightarrow> ustring list" where
  "generate_transliterate [] result = result"
| "generate_transliterate (char # rest) result =
     (case map_of generate_transliteration_map char of
        Some r \<Rightarrow> generate_transliterate rest (result @ [r])
      | None \<Rightarrow> generate_transliterate rest (result @ [[char]]))"

text \<open>Step 3, the loop over \<open>nfd\<close> that appends to \<open>normalized\<close>.\<close>

fun generate_keep :: "pylib \<Rightarrow> ustring \<Rightarrow> ustring list \<Rightarrow> py_error + ustring list" where
  "generate_keep L [] normalized = Inr normalized"
| "generate_keep L (char # rest) normalized =
     (if category L char = ''Mn'' then generate_keep L rest normalized
      else
        (case py_ord (str_lower L char) of
           Inl e \<Rightarrow> Inl e
         | Inr c \<Rightarrow>
             if 97 \<le> c \<and> c \<le> 122 then generate_keep L rest (normalized @ [str_lower L char])
             else if 48 \<le> c \<and> c \<le> 57 then generate_keep L rest (normalized @ [str_lower L char])
             else if str_lower L char \<in> {ustr '' '', ustr ''-'', ustr ''_''}
               then generate_keep L rest (normalized @ [str_lower L char])
             else generate_keep L rest normalized))"

fun generate_normalize_city_name :: "pylib \<Rightarrow> pyval \<Rightarrow> py_error + ustring" where
  "generate_normalize_city_name L PyNone = Inr []"
| "generate_normalize_city_name L (PyStr name) =
     (if name = [] then Inr []
      else
        (case generate_keep L (nfd L (concat (generate_transliterate name []))) [] of
           Inl e \<Rightarrow> Inl e
         | Inr normalized \<Rightarrow> Inr (concat normalized)))"

section \<open>generate_city_datasets.py: main\<close>

text \<open>
  A row of \<open>csv.DictReader\<close> is a dictionary from column names to values. A column that the
  header does not have is absent from the dictionary (reading it raises KeyError); a column
  that a short line does not reach has the value \<open>None\<close>.
\<close>

type_synonym row = "string \<rightharpoonup> pyval"

fun getitem :: "row \<Rightarrow> string \<Rightarrow> py_error + pyval" where
  "getitem d k = (case d k of None \<Rightarrow> Inl KeyError | Some v \<Rightarrow> Inr v)"

text \<open>The truth value of \<open>None\<close> and of the empty string is false.\<close>

fun truthy :: "pyval \<Rightarrow> bool" where
  "truthy PyNone = False"
| "truthy (PyStr s) = (s \<noteq> [])"

text \<open>\<open>float(v)\<close>: TypeError on \<open>None\<close>, ValueError on a string that is not a number.\<close>

fun py_float :: "pylib \<Rightarrow> pyval \<Rightarrow> py_error + pyfloat" where
  "py_float L PyNone = Inl TypeError"
| "py_float L (PyStr s) = (case float_str L s of None \<Rightarrow> Inl ValueError | Some f \<Rightarrow> Inr f)"

text \<open>
  \<open>int(f)\<close> truncates a finite float toward zero, raises ValueError on a NaN and
  OverflowError on an infinity.
\<close>

fun py_int :: "pyfloat \<Rightarrow> py_error + int" where
  "py_int (Finite q) = Inr (if 0 \<le> q then \<lfloor>q\<rfloor> else \<lceil>q\<rceil>)"
| "py_int NaN = Inl ValueError"
| "py_int PosInf = Inl OverflowError"
| "py_int NegInf = Inl OverflowError"

fun is_finite :: "pyfloat \<Rightarrow> bool" where
  "is_finite (Finite q) = True"
| "is_finite f = False"

record city =
  city_name :: pyval
  city_country :: pyval
  city_country_code :: pyval
  city_lat :: pyfloat
  city_lon :: pyfloat
  city_population :: int

text \<open>The expression \<open>int(float(row['population'])) if row['population'] else 0\<close>.\<close>

definition population_expr :: "pylib \<Rightarrow> row \<Rightarrow> py_error + int" where
  "population_expr L r =
     (case getitem r ''population'' of
        Inl e \<Rightarrow> Inl e
      | Inr v \<Rightarrow>
          if truthy v then (case py_float L v of Inl e \<Rightarrow> Inl e | Inr f \<Rightarrow> py_int f)
          else Inr 0)"

text \<open>The \<open>try\<close> around it: ValueError and KeyError give 0, any other exception leaves \<open>main\<close>.\<close>

definition parse_population :: "pylib \<Rightarrow> row \<Rightarrow> py_error + int" where
  "parse_population L r =
     (case population_expr L r of
        Inl e \<Rightarrow> if e = ValueError \<or> e = KeyError then Inr 0 else Inl e
      | Inr n \<Rightarrow> Inr n)"

text \<open>The two assignments \<open>lat = float(row['lat'])\<close> and \<open>lng = float(row['lng'])\<close>.\<close>

definition coordinates_expr :: "pylib \<Rightarrow> row \<Rightarrow> py_error + pyfloat \<times> pyfloat" where
  "coordinates_expr L r =
     (case getitem r ''lat'' of
        Inl e \<Rightarrow> Inl e
      | Inr v \<Rightarrow>
          (case py_float L v of
             Inl e \<Rightarrow> Inl e
           | Inr lat \<Rightarrow>
               (case getitem r ''lng'' of
                  Inl e \<Rightarrow> Inl e
                | Inr w \<Rightarrow>
                    (case py_float L w of
                       Inl e \<Rightarrow> Inl e
                     | Inr lng \<Rightarrow> Inr (lat, lng)))))"

text \<open>
  The body of the loop over the rows: \<open>Inl e\<close> when an exception leaves \<open>main\<close>,
  \<open>Inr None\<close> when the row is skipped by \<open>continue\<close>, \<open>Inr (Some c)\<close> when \<open>c\<close> is appended.
\<close>

definition row_city :: "pylib \<Rightarrow> row \<Rightarrow> py_error + city option" where
  "row_city L r =
     (case parse_population L r of
        Inl e \<Rightarrow> Inl e
      | Inr population \<Rightarrow>
          (case coordinates_expr L r of
             Inl e \<Rightarrow> if e = ValueError \<or> e = KeyError then Inr None else Inl e
           | Inr (lat, lng) \<Rightarrow>
               (case getitem r ''city'' of
                  Inl e \<Rightarrow> Inl e
                | Inr n \<Rightarrow>
                    (case getitem r ''country'' of
                       Inl e \<Rightarrow> Inl e
                     | Inr co \<Rightarrow>
                         (case getitem r ''iso2'' of
                            Inl e \<Rightarrow> Inl e
                          | Inr iso2 \<Rightarrow>
                              Inr (Some \<lparr>city_name = n, city_country = co,
                                         city_country_code = iso2, city_lat = lat,
                                         city_lon = lng, city_population = population\<rparr>))))))"

fun load_cities :: "pylib \<Rightarrow> row list \<Rightarrow> city list \<Rightarrow> py_error + city list" where
  "load_cities L [] cities = Inr cities"
| "load_cities L (r # rest) cities =
     (case row_city L r of
        Inl e \<Rightarrow> Inl e
      | Inr None \<Rightarrow> load_cities L rest cities
      | Inr (Some c) \<Rightarrow> load_cities L rest (cities @ [c]))"

text \<open>
  \<open>cities.sort(key=...)\<close> computes the key of every element first, so an exception in the key
  function leaves the sort before anything moves; then it sorts stably by the keys.
\<close>

fun sort_keys :: "pylib \<Rightarrow> city list \<Rightarrow> py_error + ustring list" where
  "sort_keys L [] = Inr []"
| "sort_keys L (c # cs) =
     (case generate_normalize_city_name L (city_name c) of
        Inl e \<Rightarrow> Inl e
      | Inr k \<Rightarrow> (case sort_keys L cs of Inl e \<Rightarrow> Inl e | Inr ks \<Rightarrow> Inr (k # ks)))"

definition sort_cities :: "pylib \<Rightarrow> city list \<Rightarrow> py_error + city list" where
  "sort_cities L cities =
     (case sort_keys L cities of
        Inl e \<Rightarrow> Inl e
      | Inr ks \<Rightarrow> Inr (map snd (sort_key fst (zip ks cities))))"

text \<open>
  \<open>main\<close> from the rows read to the two lists written, \<open>hot_cities\<close> and \<open>all_cities\<close>, with
  the two counts as parameters; the console report that follows the writing is left out.
\<close>

definition main_with :: "nat \<Rightarrow> nat \<Rightarrow> pylib \<Rightarrow> row list \<Rightarrow> py_error + city list \<times> city list" where
  "main_with hot_count all_count L rows =
     (case load_cities L rows [] of
        Inl e \<Rightarrow> Inl e
      | Inr cities \<Rightarrow>
          (case sort_cities L cities of
             Inl e \<Rightarrow> Inl e
           | Inr sorted_cities \<Rightarrow>
               Inr (take hot_count sorted_cities, take all_count sorted_cities)))"

definition HOT_CITIES_COUNT :: nat where
  "HOT_CITIES_COUNT = 500"

definition ALL_CITIES_COUNT :: nat where
  "ALL_CITIES_COUNT = 48000"

definition generate_main :: "pylib \<Rightarrow> row list \<Rightarrow> py_error + city list \<times> city list" where
  "generate_main L rows = main_with HOT_CITIES_COUNT ALL_CITIES_COUNT L rows"

section \<open>validate_city_sorting.py: normalize_city_name\<close>

definition validate_transliteration_map :: "(codepoint \<times> ustring) list" where
  "validate_transliteration_map =
     [(0x110, ustr ''D''), (0x111, ustr ''d''),
      (0xD0, ustr ''D''), (0xF0, ustr ''d''),
      (0xD8, ustr ''O''), (0xF8, ustr ''o''),
      (0xC6, ustr ''AE''), (0xE6, ustr ''ae''),
      (0x152, ustr ''OE''), (0x153, ustr ''oe''),
      (0x1E9E, ustr ''SS''), (0xDF, ustr ''ss''),
      (0xDE, ustr ''TH''), (0xFE, ustr ''th''),
      (0x141, ustr ''L''), (0x142, ustr ''l'')]"

fun validate_transliterate :: "ustring \<Rightarrow> ustring list \<Rightarrow> ustring list" where
  "validate_transliterate [] result = result"
| "validate_transliterate (char # rest) result =
     (case map_of validate_transliteration_map char of
        Some r \<Rightarrow> validate_transliterate rest (result @ [r])
      | None \<Rightarrow> validate_transliterate rest (result @ [[char]]))"

fun validate_keep :: "pylib \<Rightarrow> ustring \<Rightarrow> ustring list \<Rightarrow> py_error + ustring list" where
  "validate_keep L [] normalized = Inr normalized"
| "validate_keep L (char # rest) normalized =
     (if category L char = ''Mn'' then validate_keep L rest normalized
      else
        (case py_ord (str_lower L char) of
           Inl e \<Rightarrow> Inl e
         | Inr c \<Rightarrow>
             if 97 \<le> c \<and> c \<le> 122 then validate_keep L rest (normalized @ [str_lower L char])
             else if 48 \<le> c \<and> c \<le> 57 then validate_keep L rest (normalized @ [str_lower L char])
             else if str_lower L char \<in> {ustr '' '', ustr ''-'', ustr ''_''}
               then validate_keep L rest (normalized @ [str_lower L char])
             else validate_keep L rest normalized))"

fun validate_normalize_city_name :: "pylib \<Rightarrow> pyval \<Rightarrow> py_error + ustring" where
  "validate_normalize_city_name L PyNone = Inr []"
| "validate_normalize_city_name L (PyStr name) =
     (if name = [] then Inr []
      else
        (case validate_keep L (nfd L (concat (validate_transliterate name []))) [] of
           Inl e \<Rightarrow> Inl e
         | Inr normalized \<Rightarrow> Inr (concat normalized)))"

section \<open>validate_city_sorting.py: validate_sorting\<close>

text \<open>\<open>str(i)\<close> for an index, \<open>str(v)\<close> for a value, and \<open>sep.join(xs)\<close>.\<close>

function str_nat :: "nat \<Rightarrow> ustring" where
  "str_nat n = (if n < 10 then [48 + n] else str_nat (n div 10) @ [48 + n mod 10])"
  by pat_completeness auto
termination
  by (relation "measure id") auto

fun py_str :: "pyval \<Rightarrow> ustring" where
  "py_str PyNone = ustr ''None''"
| "py_str (PyStr s) = s"

fun py_join :: "ustring \<Rightarrow> ustring list \<Rightarrow> ustring" where
  "py_join sep [] = []"
| "py_join sep [x] = x"
| "py_join sep (x # y # ys) = x @ sep @ py_join sep (y # ys)"

text \<open>The two messages that the loop appends to \<open>errors\<close>; 39 is the quote, 10 the newline.\<close>

definition missing_name_message :: "nat \<Rightarrow> ustring" where
  "missing_name_message i =
     ustr ''  City at index '' @ str_nat i @ ustr '' missing '' @ [39] @ ustr ''name'' @ [39]
       @ ustr '' field''"

definition sorting_violation_message ::
    "nat \<Rightarrow> pyval \<Rightarrow> ustring \<Rightarrow> pyval \<Rightarrow> ustring \<Rightarrow> ustring" where
  "sorting_violation_message i prev_name prev_normalized cur_name normalized =
     ustr ''  Sorting violation at index '' @ str_nat i @ ustr '':'' @ [10]
       @ ustr ''    Previous: '' @ [39] @ py_str prev_name @ [39] @ ustr '' -> '' @ [39]
       @ prev_normalized @ [39] @ [10]
       @ ustr ''    Current:  '' @ [39] @ py_str cur_name @ [39] @ ustr '' -> '' @ [39]
       @ normalized @ [39] @ [10]
       @ ustr ''    ('' @ [39] @ normalized @ [39] @ ustr '' should come AFTER '' @ [39]
       @ prev_normalized @ [39] @ ustr '')''"

text \<open>
  The loop over \<open>enumerate(cities)\<close>, with its variables \<open>prev_normalized\<close>, \<open>prev_city\<close> and
  \<open>errors\<close>. Reading \<open>prev_city['name']\<close> raises when \<open>prev_city\<close> is \<open>None\<close> or has no name.
\<close>

fun check_sorting ::
    "pylib \<Rightarrow> nat \<Rightarrow> row list \<Rightarrow> ustring option \<Rightarrow> row option \<Rightarrow> ustring list
       \<Rightarrow> py_error + ustring list" where
  "check_sorting L i [] prev_normalized prev_city errors = Inr errors"
| "check_sorting L i (c # rest) prev_normalized prev_city errors =
     (case c ''name'' of
        None \<Rightarrow>
          check_sorting L (Suc i) rest prev_normalized prev_city
            (errors @ [missing_name_message i])
      | Some cur_name \<Rightarrow>
          (case validate_normalize_city_name L cur_name of
             Inl e \<Rightarrow> Inl e
           | Inr normalized \<Rightarrow>
               (case prev_normalized of
                  None \<Rightarrow> check_sorting L (Suc i) rest (Some normalized) (Some c) errors
                | Some p \<Rightarrow>
                    if normalized < p then
                      (case prev_city of
                         None \<Rightarrow> Inl TypeError
                       | Some pc \<Rightarrow>
                           (case getitem pc ''name'' of
                              Inl e \<Rightarrow> Inl e
                            | Inr prev_name \<Rightarrow>
                                check_sorting L (Suc i) rest (Some normalized) (Some c)
                                  (errors @ [sorting_violation_message i prev_name p
                                               cur_name normalized])))
                    else check_sorting L (Suc i) rest (Some normalized) (Some c) errors)))"

text \<open>
  The two loops that print the first and the last five cities. What they print goes to the
  console; what matters here is that \<open>format(v, '<30')\<close> raises TypeError on \<open>None\<close>.
\<close>

fun py_format_left :: "nat \<Rightarrow> pyval \<Rightarrow> py_error + ustring" where
  "py_format_left w PyNone = Inl TypeError"
| "py_format_left w (PyStr s) = Inr (s @ replicate (w - length s) 32)"

fun print_cities :: "pylib \<Rightarrow> row list \<Rightarrow> py_error + unit" where
  "print_cities L [] = Inr ()"
| "print_cities L (c # rest) =
     (case getitem c ''name'' of
        Inl e \<Rightarrow> Inl e
      | Inr n \<Rightarrow>
          (case validate_normalize_city_name L n of
             Inl e \<Rightarrow> Inl e
           | Inr normalized \<Rightarrow>
               (case py_format_left 30 n of
                  Inl e \<Rightarrow> Inl e
                | Inr line \<Rightarrow> print_cities L rest)))"

record stats =
  stats_total :: nat
  stats_first :: pyval
  stats_last :: pyval

text \<open>
  What \<open>json.load\<close> and the test on \<open>'cities'\<close> leave: the file could not be loaded (with the
  text of the exception), it has no list under \<open>'cities'\<close>, or it has the list of records.
\<close>

datatype artifact = LoadFailed ustring | NoCitiesList | CitiesList "row list"

type_synonym validation = "bool \<times> ustring option \<times> stats option"

fun validate_sorting :: "pylib \<Rightarrow> artifact \<Rightarrow> py_error + validation" where
  "validate_sorting L (LoadFailed e) =
     Inr (False, Some (ustr ''Failed to load JSON: '' @ e), None)"
| "validate_sorting L NoCitiesList =
     Inr (False, Some (ustr ''Invalid JSON format: missing '' @ [39] @ ustr ''cities'' @ [39]
                         @ ustr '' array''), None)"
| "validate_sorting L (CitiesList cities) =
     (if length cities = 0 then Inr (False, Some (ustr ''Empty cities array''), None)
      else
        (case check_sorting L 0 cities None None [] of
           Inl e \<Rightarrow> Inl e
         | Inr errors \<Rightarrow>
             if errors \<noteq> [] then Inr (False, Some (py_join [10] errors), None)
             else
               (case print_cities L (take 5 cities) of
                  Inl e \<Rightarrow> Inl e
                | Inr u \<Rightarrow>
                    (case print_cities L (drop (length cities - 5) cities) of
                       Inl e \<Rightarrow> Inl e
                     | Inr u' \<Rightarrow>
                         (case getitem (hd cities) ''name'' of
                            Inl e \<Rightarrow> Inl e
                          | Inr first_name \<Rightarrow>
                              (case getitem (last cities) ''name'' of
                                 Inl e \<Rightarrow> Inl e
                               | Inr last_name \<Rightarrow>
                                   Inr (True, None,
                                        Some \<lparr>stats_total = length cities,
                                              stats_first = first_name,
                                              stats_last = last_name\<rparr>)))))))"

section \<open>The characters that normalize_city_name keeps\<close>

text \<open>The characters that the last step of \<open>normalize_city_name\<close> keeps.\<close>

definition allowed :: "codepoint \<Rightarrow> bool" where
  "allowed c \<longleftrightarrow> (97 \<le> c \<and> c \<le> 122) \<or> (48 \<le> c \<and> c \<le> 57) \<or> c = 32 \<or> c = 45 \<or> c = 95"

text \<open>
  What the Unicode standard says of these characters, as a condition on a library: a string
  of them is its own canonical decomposition, none of them is a nonspacing mark, and each is
  its own lower case.
\<close>

definition ascii_fixed :: "pylib \<Rightarrow> bool" where
  "ascii_fixed L \<longleftrightarrow>
     (\<forall>t. list_all allowed t \<longrightarrow> nfd L t = t) \<and>
     (\<forall>c. allowed c \<longrightarrow> category L c \<noteq> ''Mn'' \<and> str_lower L c = [c])"

section \<open>What the loop of validate_sorting reports\<close>

text \<open>
  A second description of the list \<open>errors\<close>, index by index, against which the loop is
  compared. A record has a name when the key \<open>name\<close> is in its dictionary. The record that
  the loop compares the record at index \<open>j\<close> with is the last record before \<open>j\<close> that has a
  name. The entries for index \<open>j\<close> are: the missing-name message when the record has no name;
  the sorting violation when its key is below the key of that last named record; nothing
  otherwise.
\<close>

definition has_name :: "row \<Rightarrow> bool" where
  "has_name c \<longleftrightarrow> c ''name'' \<noteq> None"

definition last_named :: "row list \<Rightarrow> row option" where
  "last_named cs = (case rev (filter has_name cs) of [] \<Rightarrow> None | c # _ \<Rightarrow> Some c)"

definition expected_entries :: "pylib \<Rightarrow> row list \<Rightarrow> nat \<Rightarrow> ustring list" where
  "expected_entries L cities j =
     (case (cities ! j) ''name'' of
        None \<Rightarrow> [missing_name_message j]
      | Some cur_name \<Rightarrow>
          (case last_named (take j cities) of
             None \<Rightarrow> []
           | Some pc \<Rightarrow>
               (case pc ''name'' of
                  None \<Rightarrow> []
                | Some prev_name \<Rightarrow>
                    (case (validate_normalize_city_name L prev_name,
                           validate_normalize_city_name L cur_name) of
                       (Inr p, Inr k) \<Rightarrow>
                         if k < p then [sorting_violation_message j prev_name p cur_name k]
                         else []
                     | _ \<Rightarrow> []))))"

text \<open>
  The invariant of the loop: \<open>prev_city\<close> is the last named record so far and
  \<open>prev_normalized\<close> is its key.
\<close>

definition tracker :: "pylib \<Rightarrow> ustring option \<Rightarrow> row option \<Rightarrow> bool" where
  "tracker L pn pc \<longleftrightarrow>
     (case pc of
        None \<Rightarrow> pn = None
      | Some c \<Rightarrow> (\<exists>nm k. c ''name'' = Some nm \<and> validate_normalize_city_name L nm = Inr k
                       \<and> pn = Some k))"

section \<open>A sample of the library\<close>

text \<open>
  The theorems below hold for every library. To run the code on concrete inputs, this sample
  fixes the library on a few code points and strings, with the values CPython gives there:
  the canonical decompositions of six letters, the general categories of the ASCII letters,
  digits, space, hyphen and underscore and of the combining diacritical marks U+0300..U+036F,
  the lower case of the ASCII capitals and of U+0130, and \<open>float\<close> on eight strings.
  The sample is a Unicode database that assigns nothing else: any other code point is its own
  decomposition and its own lower case and has category Cn, and \<open>float\<close> rejects any other
  string.
\<close>

definition sample_decomposition :: "(codepoint \<times> ustring) list" where
  "sample_decomposition =
     [(0xE0, [0x61, 0x300]), (0xE9, [0x65, 0x301]), (0xF1, [0x6E, 0x303]),
      (0xF6, [0x6F, 0x308]), (0x130, [0x49, 0x307]), (0x1EB5, [0x61, 0x306, 0x303])]"

definition sample_nfd :: "ustring \<Rightarrow> ustring" where
  "sample_nfd s =
     concat (map (\<lambda>c. case map_of sample_decomposition c of Some d \<Rightarrow> d | None \<Rightarrow> [c]) s)"

definition sample_category :: "codepoint \<Rightarrow> string" where
  "sample_category c =
     (if 0x300 \<le> c \<and> c \<le> 0x36F then ''Mn''
      else if 0x41 \<le> c \<and> c \<le> 0x5A then ''Lu''
      else if 0x61 \<le> c \<and> c \<le> 0x7A then ''Ll''
      else if 0x30 \<le> c \<and> c \<le> 0x39 then ''Nd''
      else if c = 0x20 then ''Zs''
      else if c = 0x2D then ''Pd''
      else if c = 0x5F then ''Pc''
      else ''Cn'')"

definition sample_lower :: "codepoint \<Rightarrow> ustring" where
  "sample_lower c =
     (if 0x41 \<le> c \<and> c \<le> 0x5A then [c + 32]
      else if c = 0x130 then [0x69, 0x307]
      else [c])"

definition sample_float_table :: "(ustring \<times> pyfloat) list" where
  "sample_float_table =
     [(ustr ''59.5'', Finite (119 / 2)), (ustr ''18.25'', Finite (73 / 4)),
      (ustr ''1600000'', Finite 1600000), (ustr ''2.75'', Finite (11 / 4)),
      (ustr ''-5'', Finite (- 5)), (ustr ''-0.5'', Finite (- (1 / 2))),
      (ustr ''inf'', PosInf), (ustr ''nan'', NaN)]"

definition sample_lib :: pylib where
  "sample_lib =
     \<lparr>nfd = sample_nfd, category = sample_category, str_lower = sample_lower,
      float_str = map_of sample_float_table\<rparr>"

text \<open>
  Rows and records for running \<open>main\<close>: a full row of the CSV file with the given city, lat, lng
  and population, and the record that \<open>main\<close> builds from such a row.
\<close>

definition csv_row :: "ustring \<Rightarrow> ustring \<Rightarrow> ustring \<Rightarrow> ustring \<Rightarrow> row" where
  "csv_row n la lo po =
     map_of [(''city'', PyStr n), (''country'', PyStr (ustr ''Utopia'')),
             (''iso2'', PyStr (ustr ''UT'')), (''lat'', PyStr la), (''lng'', PyStr lo),
             (''population'', PyStr po)]"

definition csv_city :: "ustring \<Rightarrow> pyfloat \<Rightarrow> pyfloat \<Rightarrow> int \<Rightarrow> city" where
  "csv_city n la lo po =
     \<lparr>city_name = PyStr n, city_country = PyStr (ustr ''Utopia''),
      city_country_code = PyStr (ustr ''UT''), city_lat = la, city_lon = lo,
      city_population = po\<rparr>"

text \<open>
  Four rows: K U+00F6 ln, a row whose lat is not a number, Koln, and Aarhus with the
  population \<open>nan\<close>. The first and the third have the same sort key.
\<close>

definition sample_rows :: "row list" where
  "sample_rows =
     [csv_row [0x4B, 0xF6, 0x6C, 0x6E] (ustr ''59.5'') (ustr ''18.25'') (ustr ''1600000''),
      csv_row (ustr ''Lost'') (ustr ''abc'') (ustr ''18.25'') (ustr ''-5''),
      csv_row (ustr ''Koln'') (ustr ''2.75'') (ustr ''18.25'') [],
      csv_row (ustr ''Aarhus'') (ustr ''59.5'') (ustr ''2.75'') (ustr ''nan'')]"

text \<open>The records of the three rows that are kept, in the order of their sort keys.\<close>

definition sample_sorted :: "city list" where
  "sample_sorted =
     [csv_city (ustr ''Aarhus'') (Finite (119 / 2)) (Finite (11 / 4)) 0,
      csv_city [0x4B, 0xF6, 0x6C, 0x6E] (Finite (119 / 2)) (Finite (73 / 4)) 1600000,
      csv_city (ustr ''Koln'') (Finite (11 / 4)) (Finite (73 / 4)) 0]"

text \<open>Records for running the validator: one with a name, one without.\<close>

definition json_city :: "ustring \<Rightarrow> row" where
  "json_city n = map_of [(''name'', PyStr n), (''country'', PyStr (ustr ''Utopia''))]"

definition unnamed_city :: row where
  "unnamed_city = map_of [(''country'', PyStr (ustr ''Utopia''))]"

section \<open>The two copies of normalize_city_name\<close>

lemma transliteration_maps_equal: "validate_transliteration_map = generate_transliteration_map"
  by (simp add: validate_transliteration_map_def generate_transliteration_map_def)

lemma transliterate_equal: "validate_transliterate s r = generate_transliterate s r"
  by (induction s arbitrary: r) (simp_all add: transliteration_maps_equal split: option.splits)

lemma keep_equal: "validate_keep L s r = generate_keep L s r"
  by (induction s arbitrary: r) (simp_all split: sum.splits)

lemma normalize_equal: "validate_normalize_city_name L v = generate_normalize_city_name L v"
  by (cases v) (simp_all add: transliterate_equal keep_equal)

text \<open>
  C1. For every input string, the normalization function of the generator and the one of the
  validator compute the same sort key, and raise the same exception if the library makes
  \<open>ord\<close> raise.
\<close>

theorem normalize_city_name_agree:
  "generate_normalize_city_name L (PyStr s) = validate_normalize_city_name L (PyStr s)"
  by (simp add: transliterate_equal keep_equal)

section \<open>Properties of normalize_city_name\<close>

lemma py_ord_Inr: "py_ord s = Inr c \<longleftrightarrow> s = [c]"
  by (cases s rule: py_ord.cases) auto

lemma ustr_kept: "ustr '' '' = [32]" "ustr ''-'' = [45]" "ustr ''_'' = [95]"
  by (simp_all add: ustr_def)

lemma keep_allowed:
  "generate_keep L xs acc = Inr r \<Longrightarrow> list_all allowed (concat acc)
     \<Longrightarrow> list_all allowed (concat r)"
proof (induction xs arbitrary: acc)
  case Nil
  then show ?case by simp
next
  case (Cons x xs)
  show ?case
  proof (cases "category L x = ''Mn''")
    case True
    with Cons show ?thesis by simp
  next
    case False
    from Cons.prems(1) False obtain c where c: "str_lower L x = [c]"
      by (auto simp: py_ord_Inr split: sum.splits)
    with Cons.prems False Cons.IH show ?thesis
      by (auto simp: ustr_kept allowed_def split: if_splits)
  qed
qed

lemma normalize_allowed:
  "generate_normalize_city_name L v = Inr t \<Longrightarrow> list_all allowed t"
  by (cases v) (auto split: if_splits sum.splits dest: keep_allowed)

lemma map_of_allowed: "allowed c \<Longrightarrow> map_of generate_transliteration_map c = None"
  by (auto simp: allowed_def generate_transliteration_map_def)

lemma transliterate_allowed:
  "list_all allowed t \<Longrightarrow> generate_transliterate t acc = acc @ map (\<lambda>c. [c]) t"
  by (induction t arbitrary: acc) (simp_all add: map_of_allowed)

lemma concat_singletons: "concat (map (\<lambda>c. [c]) t) = t"
  by (induction t) simp_all

lemma keep_fixed:
  assumes "ascii_fixed L"
  shows "list_all allowed t \<Longrightarrow> generate_keep L t acc = Inr (acc @ map (\<lambda>c. [c]) t)"
proof (induction t arbitrary: acc)
  case Nil
  then show ?case by simp
next
  case (Cons x t)
  then have x: "allowed x" and t: "list_all allowed t" by simp_all
  from x assms have "category L x \<noteq> ''Mn''" "str_lower L x = [x]"
    by (auto simp: ascii_fixed_def)
  with x Cons.IH[OF t] show ?case
    by (auto simp: allowed_def ustr_kept)
qed

lemma normalize_fixed:
  assumes "ascii_fixed L" and al: "list_all allowed t"
  shows "generate_normalize_city_name L (PyStr t) = Inr t"
proof (cases "t = []")
  case True
  then show ?thesis by simp
next
  case False
  have "concat (generate_transliterate t []) = t"
    using al by (simp add: transliterate_allowed concat_singletons)
  moreover have "nfd L t = t"
    using assms by (simp add: ascii_fixed_def)
  ultimately show ?thesis
    using False keep_fixed[OF assms, of "[]"] by (simp add: concat_singletons)
qed

lemma sample_lib_ascii_fixed: "ascii_fixed sample_lib"
proof -
  have "sample_nfd t = t" if "list_all allowed t" for t
    using that
    by (induction t) (auto simp: sample_nfd_def sample_decomposition_def allowed_def)
  moreover have "sample_category c \<noteq> ''Mn'' \<and> sample_lower c = [c]" if "allowed c" for c
    using that by (auto simp: sample_category_def sample_lower_def allowed_def)
  ultimately show ?thesis
    by (simp add: ascii_fixed_def sample_lib_def)
qed

lemmas sample_defs =
  ustr_def sample_lib_def sample_nfd_def sample_category_def sample_lower_def
  sample_decomposition_def sample_float_table_def generate_transliteration_map_def
  validate_transliteration_map_def

lemma sample_koln:
  "generate_normalize_city_name sample_lib (PyStr [0x4B, 0xF6, 0x6C, 0x6E]) = Inr (ustr ''koln'')"
  by (simp add: sample_defs)

text \<open>
  C7. normalize is idempotent on its own output: if the library leaves the kept ASCII
  characters as they are and \<open>normalize(s)\<close> returns \<open>t\<close>, then \<open>normalize(t)\<close> returns \<open>t\<close>.
\<close>

theorem normalize_city_name_idempotent:
  assumes "ascii_fixed L" and "generate_normalize_city_name L (PyStr s) = Inr t"
  shows "generate_normalize_city_name L (PyStr t) = Inr t"
  using assms normalize_fixed normalize_allowed by blast

theorem normalize_city_name_idempotent_witness:
  "ascii_fixed sample_lib
   \<and> generate_normalize_city_name sample_lib (PyStr [0x4B, 0xF6, 0x6C, 0x6E]) = Inr (ustr ''koln'')
   \<and> generate_normalize_city_name sample_lib (PyStr (ustr ''koln'')) = Inr (ustr ''koln'')"
  using normalize_city_name_idempotent [OF sample_lib_ascii_fixed sample_koln]
    sample_lib_ascii_fixed sample_koln
  by simp

text \<open>
  C8. The worked examples, on the sample of the library: \<open>normalize\<close> maps U+0110 U+00E0
  space N U+1EB5 n g to \<open>da nang\<close>, S U+00F8 ndre Land to \<open>sondre land\<close>, K U+00F6 ln to
  \<open>koln\<close> and the empty string to the empty string.
\<close>

theorem normalize_city_name_examples:
  "generate_normalize_city_name sample_lib (PyStr [0x110, 0xE0, 0x20, 0x4E, 0x1EB5, 0x6E, 0x67])
     = Inr (ustr ''da nang'')
   \<and> generate_normalize_city_name sample_lib
       (PyStr [0x53, 0xF8, 0x6E, 0x64, 0x72, 0x65, 0x20, 0x4C, 0x61, 0x6E, 0x64])
     = Inr (ustr ''sondre land'')
   \<and> generate_normalize_city_name sample_lib (PyStr [0x4B, 0xF6, 0x6C, 0x6E])
     = Inr (ustr ''koln'')
   \<and> generate_normalize_city_name sample_lib (PyStr []) = Inr []"
  by (simp add: sample_defs)

section \<open>The loop over the rows\<close>

lemma csv_row_simps:
  "csv_row n la lo po ''city'' = Some (PyStr n)"
  "csv_row n la lo po ''country'' = Some (PyStr (ustr ''Utopia''))"
  "csv_row n la lo po ''iso2'' = Some (PyStr (ustr ''UT''))"
  "csv_row n la lo po ''lat'' = Some (PyStr la)"
  "csv_row n la lo po ''lng'' = Some (PyStr lo)"
  "csv_row n la lo po ''population'' = Some (PyStr po)"
  by (simp_all add: csv_row_def)

lemma sample_float_simps:
  "float_str sample_lib (ustr ''59.5'') = Some (Finite (119 / 2))"
  "float_str sample_lib (ustr ''18.25'') = Some (Finite (73 / 4))"
  "float_str sample_lib (ustr ''1600000'') = Some (Finite 1600000)"
  "float_str sample_lib (ustr ''2.75'') = Some (Finite (11 / 4))"
  "float_str sample_lib (ustr ''-5'') = Some (Finite (- 5))"
  "float_str sample_lib (ustr ''-0.5'') = Some (Finite (- (1 / 2)))"
  "float_str sample_lib (ustr ''inf'') = Some PosInf"
  "float_str sample_lib (ustr ''nan'') = Some NaN"
  "float_str sample_lib (ustr ''abc'') = None"
  "float_str sample_lib [] = None"
  by (simp_all add: sample_lib_def sample_float_table_def ustr_def)

lemma ustr_Nil [simp]: "ustr s = [] \<longleftrightarrow> s = []"
  by (simp add: ustr_def)

lemma ceiling_minus_half: "\<lceil>- (1 / 2) :: rat\<rceil> = 0"
  by (simp add: ceiling_eq_iff)

lemmas row_defs = row_city_def parse_population_def population_expr_def coordinates_expr_def
  csv_row_simps sample_float_simps csv_city_def

lemma coordinates_cases:
  "coordinates_expr L r =
     (case r ''lat'' of
        None \<Rightarrow> Inl KeyError
      | Some PyNone \<Rightarrow> Inl TypeError
      | Some (PyStr s) \<Rightarrow>
          (case float_str L s of
             None \<Rightarrow> Inl ValueError
           | Some la \<Rightarrow>
               (case r ''lng'' of
                  None \<Rightarrow> Inl KeyError
                | Some PyNone \<Rightarrow> Inl TypeError
                | Some (PyStr t) \<Rightarrow>
                    (case float_str L t of None \<Rightarrow> Inl ValueError | Some lo \<Rightarrow> Inr (la, lo)))))"
  by (simp add: coordinates_expr_def split: option.splits pyval.splits)

lemma sample_lost:
  "parse_population sample_lib (csv_row (ustr ''Lost'') (ustr ''abc'') (ustr ''18.25'') (ustr ''-5''))
     = Inr (- 5)"
  "csv_row (ustr ''Lost'') (ustr ''abc'') (ustr ''18.25'') (ustr ''-5'') ''lat'' \<noteq> Some PyNone"
  "csv_row (ustr ''Lost'') (ustr ''abc'') (ustr ''18.25'') (ustr ''-5'') ''lng'' \<noteq> Some PyNone"
  by (simp_all add: row_defs)

text \<open>
  C5, as the code has it. Take a row whose population does not make \<open>main\<close> raise and whose
  lat and lng are not \<open>None\<close>. The row is skipped exactly when the lat or the lng column is
  missing or \<open>float\<close> rejects its text; skipping raises nothing and the loop goes on with the
  list of cities unchanged. A record that is kept has the floats that \<open>float\<close> returned for
  lat and lng, whatever they are: nothing tests that they are finite.
\<close>

theorem coordinates_filter:
  assumes "parse_population L r = Inr n" "r ''lat'' \<noteq> Some PyNone" "r ''lng'' \<noteq> Some PyNone"
  shows "(row_city L r = Inr None \<longleftrightarrow>
            r ''lat'' = None \<or> (\<exists>s. r ''lat'' = Some (PyStr s) \<and> float_str L s = None)
          \<or> r ''lng'' = None \<or> (\<exists>s. r ''lng'' = Some (PyStr s) \<and> float_str L s = None))
       \<and> (row_city L r = Inr None \<longrightarrow>
            (\<forall>rest cities. load_cities L (r # rest) cities = load_cities L rest cities))
       \<and> (\<forall>c. row_city L r = Inr (Some c) \<longrightarrow>
            (\<exists>s t. r ''lat'' = Some (PyStr s) \<and> float_str L s = Some (city_lat c)
                 \<and> r ''lng'' = Some (PyStr t) \<and> float_str L t = Some (city_lon c)))"
proof (intro conjI)
  show "row_city L r = Inr None \<longleftrightarrow>
            r ''lat'' = None \<or> (\<exists>s. r ''lat'' = Some (PyStr s) \<and> float_str L s = None)
          \<or> r ''lng'' = None \<or> (\<exists>s. r ''lng'' = Some (PyStr s) \<and> float_str L s = None)"
    using assms
    by (auto simp: row_city_def coordinates_cases split: option.splits pyval.splits)
  show "row_city L r = Inr None \<longrightarrow>
            (\<forall>rest cities. load_cities L (r # rest) cities = load_cities L rest cities)"
    by simp
  show "\<forall>c. row_city L r = Inr (Some c) \<longrightarrow>
            (\<exists>s t. r ''lat'' = Some (PyStr s) \<and> float_str L s = Some (city_lat c)
                 \<and> r ''lng'' = Some (PyStr t) \<and> float_str L t = Some (city_lon c))"
    using assms
    by (auto simp: row_city_def coordinates_cases split: option.splits pyval.splits)
qed

theorem coordinates_filter_witness:
  "parse_population sample_lib (csv_row (ustr ''Lost'') (ustr ''abc'') (ustr ''18.25'') (ustr ''-5''))
     = Inr (- 5)
   \<and> row_city sample_lib (csv_row (ustr ''Lost'') (ustr ''abc'') (ustr ''18.25'') (ustr ''-5''))
     = Inr None
   \<and> load_cities sample_lib
       [csv_row (ustr ''Lost'') (ustr ''abc'') (ustr ''18.25'') (ustr ''-5'')] [] = Inr []"
  using coordinates_filter [OF sample_lost] sample_lost(1)
  by (simp add: csv_row_simps sample_float_simps)

text \<open>
  C5, as it is stated, fails: \<open>float\<close> reads \<open>inf\<close> as a number, so a row whose lat is \<open>inf\<close>
  is kept, and the record has an infinite lat.
\<close>

theorem coordinates_finite_counterexample:
  "row_city sample_lib (csv_row (ustr ''Nowhere'') (ustr ''inf'') (ustr ''18.25'') [])
     = Inr (Some (csv_city (ustr ''Nowhere'') PosInf (Finite (73 / 4)) 0))
   \<and> \<not> is_finite (city_lat (csv_city (ustr ''Nowhere'') PosInf (Finite (73 / 4)) 0))"
  by (simp add: row_defs)

lemma floor_eleven_quarters: "\<lfloor>11 / 4 :: rat\<rfloor> = 2"
  by (simp add: floor_eq_iff)

text \<open>
  C9, as the code has it. The population is 0 when the column is missing, \<open>None\<close> or empty and
  when \<open>float\<close> rejects its text or reads a NaN; when \<open>float\<close> reads a finite number it is
  that number truncated toward zero, with its sign. The record that is kept stores this value.
\<close>

theorem population_default:
  "(r ''population'' = None \<or> r ''population'' = Some PyNone \<or> r ''population'' = Some (PyStr [])
      \<longrightarrow> parse_population L r = Inr 0)
   \<and> (\<forall>s. r ''population'' = Some (PyStr s) \<and> s \<noteq> [] \<longrightarrow>
         (float_str L s = None \<longrightarrow> parse_population L r = Inr 0)
       \<and> (float_str L s = Some NaN \<longrightarrow> parse_population L r = Inr 0)
       \<and> (\<forall>q. float_str L s = Some (Finite q) \<longrightarrow>
             parse_population L r = Inr (if 0 \<le> q then \<lfloor>q\<rfloor> else \<lceil>q\<rceil>)))
   \<and> (\<forall>c. row_city L r = Inr (Some c) \<longrightarrow> parse_population L r = Inr (city_population c))"
proof (intro conjI allI impI)
  assume "r ''population'' = None \<or> r ''population'' = Some PyNone \<or> r ''population'' = Some (PyStr [])"
  then show "parse_population L r = Inr 0"
    by (auto simp: parse_population_def population_expr_def)
next
  fix s assume "r ''population'' = Some (PyStr s) \<and> s \<noteq> []" "float_str L s = None"
  then show "parse_population L r = Inr 0"
    by (simp add: parse_population_def population_expr_def)
next
  fix s assume "r ''population'' = Some (PyStr s) \<and> s \<noteq> []" "float_str L s = Some NaN"
  then show "parse_population L r = Inr 0"
    by (simp add: parse_population_def population_expr_def)
next
  fix s q assume "r ''population'' = Some (PyStr s) \<and> s \<noteq> []" "float_str L s = Some (Finite q)"
  then show "parse_population L r = Inr (if 0 \<le> q then \<lfloor>q\<rfloor> else \<lceil>q\<rceil>)"
    by (simp add: parse_population_def population_expr_def)
next
  fix c assume "row_city L r = Inr (Some c)"
  then show "parse_population L r = Inr (city_population c)"
    by (auto simp: row_city_def split: sum.splits if_splits prod.splits)
qed

theorem population_default_witness:
  "parse_population sample_lib (csv_row (ustr ''Nowhere'') (ustr ''59.5'') (ustr ''18.25'') []) = Inr 0
   \<and> parse_population sample_lib (csv_row (ustr ''Nowhere'') (ustr ''59.5'') (ustr ''18.25'') (ustr ''abc''))
     = Inr 0
   \<and> parse_population sample_lib (csv_row (ustr ''Nowhere'') (ustr ''59.5'') (ustr ''18.25'') (ustr ''nan''))
     = Inr 0
   \<and> parse_population sample_lib (csv_row (ustr ''Nowhere'') (ustr ''59.5'') (ustr ''18.25'') (ustr ''2.75''))
     = Inr 2
   \<and> parse_population sample_lib (csv_row (ustr ''Nowhere'') (ustr ''59.5'') (ustr ''18.25'') (ustr ''-0.5''))
     = Inr 0
   \<and> parse_population sample_lib (csv_row (ustr ''Nowhere'') (ustr ''59.5'') (ustr ''18.25'') (ustr ''-5''))
     = Inr (- 5)"
proof -
  note absent = population_default [THEN conjunct1, rule_format]
  note present = population_default [THEN conjunct2, THEN conjunct1, rule_format]
  note rejected = present [THEN conjunct1, rule_format]
  note not_a_number = present [THEN conjunct2, THEN conjunct1, rule_format]
  note finite = present [THEN conjunct2, THEN conjunct2, rule_format]
  have "parse_population sample_lib
          (csv_row (ustr ''Nowhere'') (ustr ''59.5'') (ustr ''18.25'') []) = Inr 0"
    by (rule absent) (simp add: csv_row_simps)
  moreover have "parse_population sample_lib
          (csv_row (ustr ''Nowhere'') (ustr ''59.5'') (ustr ''18.25'') (ustr ''abc'')) = Inr 0"
    by (rule rejected [where s = "ustr ''abc''"]) (simp_all add: csv_row_simps sample_float_simps)
  moreover have "parse_population sample_lib
          (csv_row (ustr ''Nowhere'') (ustr ''59.5'') (ustr ''18.25'') (ustr ''nan'')) = Inr 0"
    by (rule not_a_number [where s = "ustr ''nan''"])
      (simp_all add: csv_row_simps sample_float_simps)
  moreover have "parse_population sample_lib
          (csv_row (ustr ''Nowhere'') (ustr ''59.5'') (ustr ''18.25'') (ustr ''2.75'')) = Inr 2"
    using finite [where s = "ustr ''2.75''" and q = "11 / 4" and L = sample_lib
        and r = "csv_row (ustr ''Nowhere'') (ustr ''59.5'') (ustr ''18.25'') (ustr ''2.75'')"]
    by (simp add: csv_row_simps sample_float_simps floor_eleven_quarters)
  moreover have "parse_population sample_lib
          (csv_row (ustr ''Nowhere'') (ustr ''59.5'') (ustr ''18.25'') (ustr ''-0.5'')) = Inr 0"
    using finite [where s = "ustr ''-0.5''" and q = "- (1 / 2)" and L = sample_lib
        and r = "csv_row (ustr ''Nowhere'') (ustr ''59.5'') (ustr ''18.25'') (ustr ''-0.5'')"]
    by (simp add: csv_row_simps sample_float_simps ceiling_minus_half)
  moreover have "parse_population sample_lib
          (csv_row (ustr ''Nowhere'') (ustr ''59.5'') (ustr ''18.25'') (ustr ''-5'')) = Inr (- 5)"
    using finite [where s = "ustr ''-5''" and q = "- 5" and L = sample_lib
        and r = "csv_row (ustr ''Nowhere'') (ustr ''59.5'') (ustr ''18.25'') (ustr ''-5'')"]
    by (simp add: csv_row_simps sample_float_simps)
  ultimately show ?thesis by simp
qed

text \<open>
  C9, as it is stated, fails: a row whose population is \<open>-5\<close> is kept with the population -5.
\<close>

theorem population_nonnegative_counterexample:
  "row_city sample_lib (csv_row (ustr ''Nowhere'') (ustr ''59.5'') (ustr ''18.25'') (ustr ''-5''))
     = Inr (Some (csv_city (ustr ''Nowhere'') (Finite (119 / 2)) (Finite (73 / 4)) (- 5)))
   \<and> city_population (csv_city (ustr ''Nowhere'') (Finite (119 / 2)) (Finite (73 / 4)) (- 5)) < 0"
  by (simp add: row_defs)

text \<open>
  A population that \<open>float\<close> reads as an infinity is outside the statement above: \<open>int\<close>
  raises OverflowError, which the \<open>try\<close> does not catch.
\<close>

lemma population_infinite_raises:
  "row_city sample_lib (csv_row (ustr ''Nowhere'') (ustr ''59.5'') (ustr ''18.25'') (ustr ''inf''))
     = Inl OverflowError"
  by (simp add: row_defs)

section \<open>The datasets that main writes\<close>

lemma sort_keys_Inr_D:
  "sort_keys L cs = Inr ks \<Longrightarrow>
     list_all2 (\<lambda>c k. generate_normalize_city_name L (city_name c) = Inr k) cs ks"
  by (induction cs arbitrary: ks) (auto split: sum.splits)

lemma sort_keys_Inr_I:
  "list_all2 (\<lambda>c k. generate_normalize_city_name L (city_name c) = Inr k) cs ks
     \<Longrightarrow> sort_keys L cs = Inr ks"
  by (induction rule: list_all2_induct) simp_all

lemma sort_keys_all2:
  "sort_keys L cs = Inr ks \<longleftrightarrow>
     list_all2 (\<lambda>c k. generate_normalize_city_name L (city_name c) = Inr k) cs ks"
  using sort_keys_Inr_D sort_keys_Inr_I by blast

lemma sort_cities_keys:
  assumes "sort_cities L cs = Inr ss"
  shows "\<exists>ks. sort_keys L ss = Inr ks \<and> sorted ks"
proof -
  from assms obtain ks where ks: "sort_keys L cs = Inr ks"
    and ss: "ss = map snd (sort_key fst (zip ks cs))"
    by (auto simp: sort_cities_def split: sum.splits)
  let ?P = "\<lambda>c k. generate_normalize_city_name L (city_name c) = Inr k"
  let ?ps = "sort_key fst (zip ks cs)"
  from ks have "list_all2 ?P cs ks" by (simp add: sort_keys_all2)
  then have "\<forall>p \<in> set (zip ks cs). ?P (snd p) (fst p)"
    by (auto simp: list_all2_conv_all_nth set_zip)
  then have "\<forall>p \<in> set ?ps. ?P (snd p) (fst p)"
    by simp
  then have "list_all2 ?P (map snd ?ps) (map fst ?ps)"
    by (simp add: list_all2_map1 list_all2_map2 list_all2_same)
  then have "sort_keys L ss = Inr (map fst ?ps)"
    by (simp add: sort_keys_all2 ss)
  moreover have "sorted (map fst ?ps)" by simp
  ultimately show ?thesis by blast
qed

lemma sort_cities_mset:
  assumes "sort_cities L cs = Inr ss"
  shows "mset ss = mset cs"
proof -
  from assms obtain ks where ks: "sort_keys L cs = Inr ks"
    and ss: "ss = map snd (sort_key fst (zip ks cs))"
    by (auto simp: sort_cities_def split: sum.splits)
  from ks have "length ks = length cs"
    by (auto simp: sort_keys_all2 dest: list_all2_lengthD)
  then have "map snd (zip ks cs) = cs" by simp
  then have "mset (map snd (zip ks cs)) = mset cs" by simp
  then show ?thesis
    unfolding ss by (simp del: map_snd_zip)
qed

lemma sort_keys_take:
  "sort_keys L ss = Inr ks \<Longrightarrow> sort_keys L (take n ss) = Inr (take n ks)"
  by (simp add: sort_keys_all2)

lemma sort_keys_adjacent:
  assumes "sort_keys L ds = Inr ks" "sorted ks" "0 < i" "i < length ds"
  shows "\<exists>k1 k2. generate_normalize_city_name L (city_name (ds ! (i - 1))) = Inr k1
           \<and> generate_normalize_city_name L (city_name (ds ! i)) = Inr k2 \<and> k1 \<le> k2"
proof -
  from assms(1) have a: "list_all2 (\<lambda>c k. generate_normalize_city_name L (city_name c) = Inr k) ds ks"
    by (simp add: sort_keys_all2)
  then have len: "length ks = length ds" by (auto dest: list_all2_lengthD)
  from a assms(3,4) have "generate_normalize_city_name L (city_name (ds ! (i - 1))) = Inr (ks ! (i - 1))"
     "generate_normalize_city_name L (city_name (ds ! i)) = Inr (ks ! i)"
    by (auto simp: list_all2_conv_all_nth)
  moreover from assms(2,3,4) len have "ks ! (i - 1) \<le> ks ! i"
    by (auto intro: sorted_nth_mono)
  ultimately show ?thesis by blast
qed

lemma sample_load:
  "load_cities sample_lib sample_rows [] =
     Inr [csv_city [0x4B, 0xF6, 0x6C, 0x6E] (Finite (119 / 2)) (Finite (73 / 4)) 1600000,
          csv_city (ustr ''Koln'') (Finite (11 / 4)) (Finite (73 / 4)) 0,
          csv_city (ustr ''Aarhus'') (Finite (119 / 2)) (Finite (11 / 4)) 0]"
  by (simp add: sample_rows_def row_defs)

lemma sample_keys:
  "generate_normalize_city_name sample_lib (PyStr [0x4B, 0xF6, 0x6C, 0x6E]) = Inr (ustr ''koln'')"
  "generate_normalize_city_name sample_lib (PyStr (ustr ''Koln'')) = Inr (ustr ''koln'')"
  "generate_normalize_city_name sample_lib (PyStr (ustr ''Aarhus'')) = Inr (ustr ''aarhus'')"
  by (simp_all add: sample_defs)

lemma sample_sort:
  "sort_cities sample_lib
     [csv_city [0x4B, 0xF6, 0x6C, 0x6E] (Finite (119 / 2)) (Finite (73 / 4)) 1600000,
      csv_city (ustr ''Koln'') (Finite (11 / 4)) (Finite (73 / 4)) 0,
      csv_city (ustr ''Aarhus'') (Finite (119 / 2)) (Finite (11 / 4)) 0] =
   Inr [csv_city (ustr ''Aarhus'') (Finite (119 / 2)) (Finite (11 / 4)) 0,
        csv_city [0x4B, 0xF6, 0x6C, 0x6E] (Finite (119 / 2)) (Finite (73 / 4)) 1600000,
        csv_city (ustr ''Koln'') (Finite (11 / 4)) (Finite (73 / 4)) 0]"
  by (simp add: sort_cities_def csv_city_def sample_defs)

lemma sample_main:
  "main_with 2 3 sample_lib sample_rows =
     Inr ([csv_city (ustr ''Aarhus'') (Finite (119 / 2)) (Finite (11 / 4)) 0,
           csv_city [0x4B, 0xF6, 0x6C, 0x6E] (Finite (119 / 2)) (Finite (73 / 4)) 1600000],
          [csv_city (ustr ''Aarhus'') (Finite (119 / 2)) (Finite (11 / 4)) 0,
           csv_city [0x4B, 0xF6, 0x6C, 0x6E] (Finite (119 / 2)) (Finite (73 / 4)) 1600000,
           csv_city (ustr ''Koln'') (Finite (11 / 4)) (Finite (73 / 4)) 0])"
  by (simp add: main_with_def sample_load sample_sort)

lemma sample_main_sorted:
  "main_with 2 3 sample_lib sample_rows = Inr (take 2 sample_sorted, sample_sorted)"
  by (simp add: sample_main sample_sorted_def)

text \<open>
  C2. When \<open>main\<close> writes its two lists, every record after the first in the hot list and in
  the all list has a sort key that is not below the sort key of the record before it, in the
  lexicographic order of strings.
\<close>

theorem builder_output_sorted:
  assumes "main_with hot_count all_count L rows = Inr (hot_cities, all_cities)"
  shows "(\<forall>i. 0 < i \<and> i < length hot_cities \<longrightarrow>
            (\<exists>k1 k2. generate_normalize_city_name L (city_name (hot_cities ! (i - 1))) = Inr k1
               \<and> generate_normalize_city_name L (city_name (hot_cities ! i)) = Inr k2 \<and> k1 \<le> k2))
       \<and> (\<forall>i. 0 < i \<and> i < length all_cities \<longrightarrow>
            (\<exists>k1 k2. generate_normalize_city_name L (city_name (all_cities ! (i - 1))) = Inr k1
               \<and> generate_normalize_city_name L (city_name (all_cities ! i)) = Inr k2 \<and> k1 \<le> k2))"
proof -
  from assms obtain cs ss where "sort_cities L cs = Inr ss"
    and h: "hot_cities = take hot_count ss" and a: "all_cities = take all_count ss"
    by (auto simp: main_with_def split: sum.splits)
  then obtain ks where ks: "sort_keys L ss = Inr ks" "sorted ks"
    using sort_cities_keys by blast
  have hk: "sort_keys L hot_cities = Inr (take hot_count ks)"
    unfolding h using ks(1) by (rule sort_keys_take)
  have hs: "sorted (take hot_count ks)"
    using ks(2) by (rule sorted_wrt_take)
  have ak: "sort_keys L all_cities = Inr (take all_count ks)"
    unfolding a using ks(1) by (rule sort_keys_take)
  have as: "sorted (take all_count ks)"
    using ks(2) by (rule sorted_wrt_take)
  show ?thesis
  proof (intro conjI allI impI)
    fix i assume "0 < i \<and> i < length hot_cities"
    then show "\<exists>k1 k2. generate_normalize_city_name L (city_name (hot_cities ! (i - 1))) = Inr k1
               \<and> generate_normalize_city_name L (city_name (hot_cities ! i)) = Inr k2 \<and> k1 \<le> k2"
      using sort_keys_adjacent[OF hk hs, of i] by simp
  next
    fix i assume "0 < i \<and> i < length all_cities"
    then show "\<exists>k1 k2. generate_normalize_city_name L (city_name (all_cities ! (i - 1))) = Inr k1
               \<and> generate_normalize_city_name L (city_name (all_cities ! i)) = Inr k2 \<and> k1 \<le> k2"
      using sort_keys_adjacent[OF ak as, of i] by simp
  qed
qed

theorem builder_output_sorted_witness:
  "main_with 2 3 sample_lib sample_rows = Inr (take 2 sample_sorted, sample_sorted)
   \<and> (\<exists>k1 k2. generate_normalize_city_name sample_lib (city_name (take 2 sample_sorted ! 0)) = Inr k1
         \<and> generate_normalize_city_name sample_lib (city_name (take 2 sample_sorted ! 1)) = Inr k2
         \<and> k1 \<le> k2)
   \<and> (\<exists>k1 k2. generate_normalize_city_name sample_lib (city_name (sample_sorted ! 1)) = Inr k1
         \<and> generate_normalize_city_name sample_lib (city_name (sample_sorted ! 2)) = Inr k2
         \<and> k1 \<le> k2)"
proof -
  note sorted = builder_output_sorted [OF sample_main_sorted]
  have "0 < (1::nat) \<and> 1 < length (take 2 sample_sorted)"
    by (simp add: sample_sorted_def)
  from sorted [THEN conjunct1, rule_format, OF this]
  have hot: "\<exists>k1 k2. generate_normalize_city_name sample_lib
                        (city_name (take 2 sample_sorted ! 0)) = Inr k1
         \<and> generate_normalize_city_name sample_lib (city_name (take 2 sample_sorted ! 1)) = Inr k2
         \<and> k1 \<le> k2"
    by simp
  have "0 < (2::nat) \<and> 2 < length sample_sorted"
    by (simp add: sample_sorted_def)
  from sorted [THEN conjunct2, rule_format, OF this]
  have "\<exists>k1 k2. generate_normalize_city_name sample_lib (city_name (sample_sorted ! 1)) = Inr k1
         \<and> generate_normalize_city_name sample_lib (city_name (sample_sorted ! 2)) = Inr k2
         \<and> k1 \<le> k2"
    by simp
  with sample_main_sorted hot show ?thesis by blast
qed

text \<open>
  C6. The two lists that \<open>main\<close> writes are prefixes of one sequence, the stable sort of the
  records that passed the coordinate filter: the hot list is its first \<open>hot_count\<close> records
  and the all list its first \<open>all_count\<close>. So for \<open>hot_count \<le> all_count\<close> the hot list is the
  first \<open>hot_count\<close> records of the all list, and a list whose count is not below the number of
  records holds each of them once, with nothing added.
\<close>

theorem builder_prefix:
  assumes "main_with hot_count all_count L rows = Inr (hot_cities, all_cities)"
  shows "\<exists>cities sorted_cities.
           load_cities L rows [] = Inr cities \<and> sort_cities L cities = Inr sorted_cities
           \<and> mset sorted_cities = mset cities
           \<and> hot_cities = take hot_count sorted_cities
           \<and> all_cities = take all_count sorted_cities
           \<and> (hot_count \<le> all_count \<longrightarrow> hot_cities = take hot_count all_cities)
           \<and> (length cities \<le> hot_count \<longrightarrow> mset hot_cities = mset cities)
           \<and> (length cities \<le> all_count \<longrightarrow> mset all_cities = mset cities)"
proof -
  from assms obtain cs ss where l: "load_cities L rows [] = Inr cs" and s: "sort_cities L cs = Inr ss"
    and h: "hot_cities = take hot_count ss" and a: "all_cities = take all_count ss"
    by (auto simp: main_with_def split: sum.splits)
  have m: "mset ss = mset cs" using s by (rule sort_cities_mset)
  then have len: "length ss = length cs" by (rule mset_eq_length)
  have p: "hot_count \<le> all_count \<longrightarrow> hot_cities = take hot_count all_cities"
    by (simp add: h a min_def)
  have uh: "length cs \<le> hot_count \<longrightarrow> mset hot_cities = mset cs"
    using m len by (simp add: h)
  have ua: "length cs \<le> all_count \<longrightarrow> mset all_cities = mset cs"
    using m len by (simp add: a)
  from l s m h a p uh ua show ?thesis by blast
qed

theorem builder_prefix_witness:
  "main_with 2 3 sample_lib sample_rows = Inr (take 2 sample_sorted, sample_sorted)
   \<and> load_cities sample_lib sample_rows [] =
       Inr [csv_city [0x4B, 0xF6, 0x6C, 0x6E] (Finite (119 / 2)) (Finite (73 / 4)) 1600000,
            csv_city (ustr ''Koln'') (Finite (11 / 4)) (Finite (73 / 4)) 0,
            csv_city (ustr ''Aarhus'') (Finite (119 / 2)) (Finite (11 / 4)) 0]
   \<and> mset sample_sorted =
       mset [csv_city [0x4B, 0xF6, 0x6C, 0x6E] (Finite (119 / 2)) (Finite (73 / 4)) 1600000,
             csv_city (ustr ''Koln'') (Finite (11 / 4)) (Finite (73 / 4)) 0,
             csv_city (ustr ''Aarhus'') (Finite (119 / 2)) (Finite (11 / 4)) 0]"
proof -
  from builder_prefix [OF sample_main_sorted] obtain cities where
    "load_cities sample_lib sample_rows [] = Inr cities"
    "length cities \<le> 3 \<longrightarrow> mset sample_sorted = mset cities"
    by blast
  then have "mset sample_sorted =
       mset [csv_city [0x4B, 0xF6, 0x6C, 0x6E] (Finite (119 / 2)) (Finite (73 / 4)) 1600000,
             csv_city (ustr ''Koln'') (Finite (11 / 4)) (Finite (73 / 4)) 0,
             csv_city (ustr ''Aarhus'') (Finite (119 / 2)) (Finite (11 / 4)) 0]"
    by (auto simp: sample_load)
  with sample_main_sorted sample_load show ?thesis by blast
qed

section \<open>The loop of validate_sorting\<close>

lemma last_named_snoc:
  "last_named (pre @ [c]) = (if has_name c then Some c else last_named pre)"
  by (simp add: last_named_def)

lemma expected_at_length:
  "expected_entries L (pre @ c # rest) (length pre) =
     (case c ''name'' of
        None \<Rightarrow> [missing_name_message (length pre)]
      | Some cur_name \<Rightarrow>
          (case last_named pre of
             None \<Rightarrow> []
           | Some pc \<Rightarrow>
               (case pc ''name'' of
                  None \<Rightarrow> []
                | Some prev_name \<Rightarrow>
                    (case (validate_normalize_city_name L prev_name,
                           validate_normalize_city_name L cur_name) of
                       (Inr p, Inr k) \<Rightarrow>
                         if k < p then [sorting_violation_message (length pre) prev_name p cur_name k]
                         else []
                     | _ \<Rightarrow> []))))"
  by (simp add: expected_entries_def cong: option.case_cong)

lemma entries_step:
  "concat (map f [i..<Suc (i + n)]) = f i @ concat (map f [Suc i..<Suc (i + n)])"
  by (simp add: upt_conv_Cons del: upt_Suc)

lemma check_sorting_entries:
  assumes "check_sorting L (length pre) suf pn (last_named pre) errs = Inr res"
      and "tracker L pn (last_named pre)"
  shows "res = errs @ concat (map (expected_entries L (pre @ suf))
                             [length pre..<length pre + length suf])"
  using assms
proof (induction suf arbitrary: pre pn errs)
  case Nil
  then show ?case by simp
next
  case (Cons c rest)
  have snoc: "pre @ c # rest = (pre @ [c]) @ rest" by simp
  show ?case
  proof (cases "c ''name''")
    case None
    then have ln: "last_named (pre @ [c]) = last_named pre"
      by (simp add: last_named_snoc has_name_def)
    from Cons.prems(1) None
    have run: "check_sorting L (length (pre @ [c])) rest pn (last_named (pre @ [c]))
                 (errs @ [missing_name_message (length pre)]) = Inr res"
      by (simp add: ln)
    have tr: "tracker L pn (last_named (pre @ [c]))"
      using Cons.prems(2) by (simp add: ln)
    have "res = (errs @ [missing_name_message (length pre)]) @
            concat (map (expected_entries L ((pre @ [c]) @ rest))
                     [length (pre @ [c])..<length (pre @ [c]) + length rest])"
      by (rule Cons.IH [OF run tr])
    then show ?thesis
      unfolding snoc [symmetric]
      by (simp add: entries_step expected_at_length None del: upt_Suc)
  next
    case (Some nm)
    then have ln: "last_named (pre @ [c]) = Some c"
      by (simp add: last_named_snoc has_name_def)
    from Cons.prems(1) Some obtain k where k: "validate_normalize_city_name L nm = Inr k"
      by (auto split: sum.splits)
    have tr: "tracker L (Some k) (last_named (pre @ [c]))"
      using Some k by (simp add: tracker_def ln)
    show ?thesis
    proof (cases "last_named pre")
      case None
      with Cons.prems(2) have pn: "pn = None" by (simp add: tracker_def)
      from Cons.prems(1) Some k pn
      have run: "check_sorting L (length (pre @ [c])) rest (Some k) (last_named (pre @ [c])) errs
                   = Inr res"
        by (simp add: ln)
      have "res = errs @
              concat (map (expected_entries L ((pre @ [c]) @ rest))
                       [length (pre @ [c])..<length (pre @ [c]) + length rest])"
        by (rule Cons.IH [OF run tr])
      then show ?thesis
        unfolding snoc [symmetric]
        by (simp add: entries_step expected_at_length Some None del: upt_Suc)
    next
      case lp: (Some d)
      with Cons.prems(2) obtain pnm p where d: "d ''name'' = Some pnm"
        "validate_normalize_city_name L pnm = Inr p" "pn = Some p"
        by (auto simp: tracker_def)
      show ?thesis
      proof (cases "k < p")
        case True
        from Cons.prems(1) Some k d lp True
        have run: "check_sorting L (length (pre @ [c])) rest (Some k) (last_named (pre @ [c]))
                     (errs @ [sorting_violation_message (length pre) pnm p nm k]) = Inr res"
          by (simp add: ln)
        have "res = (errs @ [sorting_violation_message (length pre) pnm p nm k]) @
                concat (map (expected_entries L ((pre @ [c]) @ rest))
                         [length (pre @ [c])..<length (pre @ [c]) + length rest])"
          by (rule Cons.IH [OF run tr])
        then show ?thesis
          unfolding snoc [symmetric]
          by (simp add: entries_step expected_at_length Some lp d k True
              del: upt_Suc)
      next
        case False
        from Cons.prems(1) Some k d lp False
        have run: "check_sorting L (length (pre @ [c])) rest (Some k) (last_named (pre @ [c])) errs
                     = Inr res"
          by (simp add: ln)
        have "res = errs @
                concat (map (expected_entries L ((pre @ [c]) @ rest))
                         [length (pre @ [c])..<length (pre @ [c]) + length rest])"
          by (rule Cons.IH [OF run tr])
        then show ?thesis
          unfolding snoc [symmetric]
          by (simp add: entries_step expected_at_length Some lp d k False
              del: upt_Suc)
      qed
    qed
  qed
qed

lemma json_city_simps:
  "json_city n ''name'' = Some (PyStr n)" "unnamed_city ''name'' = None"
  by (simp_all add: json_city_def unnamed_city_def)

lemma sample_letters:
  "validate_normalize_city_name sample_lib (PyStr (ustr ''a'')) = Inr (ustr ''a'')"
  "validate_normalize_city_name sample_lib (PyStr (ustr ''b'')) = Inr (ustr ''b'')"
  "ustr ''a'' < ustr ''b''" "\<not> ustr ''b'' < ustr ''a''"
  by (simp_all add: sample_defs)

lemma sample_check_skip:
  "check_sorting sample_lib 0 [json_city (ustr ''b''), unnamed_city, json_city (ustr ''a'')]
     None None [] =
   Inr [missing_name_message 1,
        sorting_violation_message 2 (PyStr (ustr ''b'')) (ustr ''b'') (PyStr (ustr ''a'')) (ustr ''a'')]"
  by (simp add: json_city_simps sample_letters numeral_2_eq_2
      del: validate_normalize_city_name.simps)

lemma sample_check_swapped:
  "check_sorting sample_lib 0 [json_city (ustr ''b''), json_city (ustr ''a'')] None None [] =
   Inr [sorting_violation_message 1 (PyStr (ustr ''b'')) (ustr ''b'') (PyStr (ustr ''a'')) (ustr ''a'')]"
  by (simp add: json_city_simps sample_letters del: validate_normalize_city_name.simps)

lemma sample_check_sorted:
  "check_sorting sample_lib 0 [json_city (ustr ''a''), json_city (ustr ''b'')] None None [] = Inr []"
  by (simp add: json_city_simps sample_letters del: validate_normalize_city_name.simps)

text \<open>
  C10. A record without a name gets no sort key and leaves \<open>prev_normalized\<close> and
  \<open>prev_city\<close> as they are: the list that the loop returns has, for every index, exactly the
  entries of the description above, in which a record is compared with the last record before
  it that has a name. So the record after a nameless one is compared with the last named
  record before the nameless one, and never with the nameless one.
\<close>

theorem check_sorting_skips_unnamed:
  assumes "check_sorting L 0 cities None None [] = Inr errors"
  shows "errors = concat (map (expected_entries L cities) [0..<length cities])"
  using check_sorting_entries [of L "[]" cities None "[]" errors] assms
  by (simp add: last_named_def tracker_def)

theorem check_sorting_skips_unnamed_witness:
  "check_sorting sample_lib 0 [json_city (ustr ''b''), unnamed_city, json_city (ustr ''a'')]
     None None [] =
   Inr [missing_name_message 1,
        sorting_violation_message 2 (PyStr (ustr ''b'')) (ustr ''b'') (PyStr (ustr ''a'')) (ustr ''a'')]
   \<and> [missing_name_message 1,
      sorting_violation_message 2 (PyStr (ustr ''b'')) (ustr ''b'') (PyStr (ustr ''a'')) (ustr ''a'')] =
     concat (map (expected_entries sample_lib
                    [json_city (ustr ''b''), unnamed_city, json_city (ustr ''a'')])
               [0..<length [json_city (ustr ''b''), unnamed_city, json_city (ustr ''a'')]])"
  by (rule conjI [OF sample_check_skip check_sorting_skips_unnamed [OF sample_check_skip]])

section \<open>The result of validate_sorting\<close>

lemma check_sorting_extends:
  "check_sorting L i cs pn pc errs = Inr res \<Longrightarrow> \<exists>more. res = errs @ more"
proof (induction cs arbitrary: i pn pc errs)
  case Nil
  then show ?case by simp
next
  case (Cons c rest)
  then show ?case
    by (fastforce split: option.splits sum.splits if_splits)
qed

lemma check_sorting_clean:
  assumes "check_sorting L i cs pn pc errs = Inr res"
  shows "res = [] \<longleftrightarrow>
           errs = [] \<and>
           (\<exists>ks. list_all2 (\<lambda>c k. \<exists>nm. c ''name'' = Some nm
                              \<and> validate_normalize_city_name L nm = Inr k) cs ks
                 \<and> sorted (case pn of None \<Rightarrow> ks | Some p \<Rightarrow> p # ks))"
  using assms
proof (induction cs arbitrary: i pn pc errs)
  case Nil
  then show ?case by (auto split: option.splits)
next
  case (Cons c rest)
  let ?P = "\<lambda>c k. \<exists>nm. c ''name'' = Some nm \<and> validate_normalize_city_name L nm = Inr k"
  show ?case
  proof (cases "c ''name''")
    case None
    with Cons.prems
    have "check_sorting L (Suc i) rest pn pc (errs @ [missing_name_message i]) = Inr res"
      by simp
    then have "res \<noteq> []"
      using check_sorting_extends by fastforce
    moreover have "\<not> (\<exists>ks. list_all2 ?P (c # rest) ks
                     \<and> sorted (case pn of None \<Rightarrow> ks | Some p \<Rightarrow> p # ks))"
      using None by (auto simp: list_all2_Cons1)
    ultimately show ?thesis by blast
  next
    case (Some nm)
    with Cons.prems obtain k where k: "validate_normalize_city_name L nm = Inr k"
      by (auto split: sum.splits)
    have all2: "list_all2 ?P (c # rest) ks \<longleftrightarrow> (\<exists>ks'. ks = k # ks' \<and> list_all2 ?P rest ks')" for ks
      using Some k by (auto simp: list_all2_Cons1)
    show ?thesis
    proof (cases pn)
      case None
      with Cons.prems Some k
      have run: "check_sorting L (Suc i) rest (Some k) (Some c) errs = Inr res"
        by simp
      show ?thesis
        using Cons.IH [OF run] None by (auto simp: all2)
    next
      case pn: (Some p)
      show ?thesis
      proof (cases "k < p")
        case True
        with Cons.prems Some k pn obtain e where
          "check_sorting L (Suc i) rest (Some k) (Some c) (errs @ [e]) = Inr res"
          by (auto split: option.splits sum.splits)
        then have "res \<noteq> []"
          using check_sorting_extends by fastforce
        moreover have "\<not> (\<exists>ks. list_all2 ?P (c # rest) ks \<and> sorted (p # ks))"
          using True by (auto simp: all2)
        ultimately show ?thesis using pn by simp
      next
        case False
        with Cons.prems Some k pn
        have run: "check_sorting L (Suc i) rest (Some k) (Some c) errs = Inr res"
          by simp
        have pk: "p \<le> k" using False by simp
        have s: "sorted (p # k # ks') \<longleftrightarrow> sorted (k # ks')" for ks'
          using pk by (auto intro: order_trans)
        have "(\<exists>ks. list_all2 ?P (c # rest) ks \<and> sorted (p # ks))
                \<longleftrightarrow> (\<exists>ks'. list_all2 ?P rest ks' \<and> sorted (k # ks'))"
          unfolding all2 using s by blast
        then show ?thesis
          using Cons.IH [OF run] pn by simp
      qed
    qed
  qed
qed

lemma validate_sorting_cases:
  assumes "validate_sorting L (CitiesList cities) = Inr (ok, msg, st)"
  obtains
    (empty) "cities = []" "ok = False" "msg = Some (ustr ''Empty cities array'')" "st = None"
  | (defects) errors where "cities \<noteq> []" "check_sorting L 0 cities None None [] = Inr errors"
      "errors \<noteq> []" "ok = False" "msg = Some (py_join [10] errors)" "st = None"
  | (clean) f l where "cities \<noteq> []" "check_sorting L 0 cities None None [] = Inr []"
      "ok = True" "msg = None" "hd cities ''name'' = Some f" "last cities ''name'' = Some l"
      "st = Some \<lparr>stats_total = length cities, stats_first = f, stats_last = l\<rparr>"
  using assms by (auto split: if_splits sum.splits option.splits)

lemma sample_validate_sorted:
  "validate_sorting sample_lib (CitiesList [json_city (ustr ''a''), json_city (ustr ''b'')]) =
   Inr (True, None,
        Some \<lparr>stats_total = 2, stats_first = PyStr (ustr ''a''), stats_last = PyStr (ustr ''b'')\<rparr>)"
  by (simp add: sample_check_sorted json_city_simps sample_letters
      del: check_sorting.simps validate_normalize_city_name.simps)

lemma sample_validate_skip:
  "validate_sorting sample_lib
     (CitiesList [json_city (ustr ''b''), unnamed_city, json_city (ustr ''a'')]) =
   Inr (False,
        Some (py_join [10]
                [missing_name_message 1,
                 sorting_violation_message 2 (PyStr (ustr ''b'')) (ustr ''b'') (PyStr (ustr ''a''))
                   (ustr ''a'')]),
        None)"
  by (simp add: sample_check_skip del: check_sorting.simps)

text \<open>
  C4, as the code has it. When \<open>validate_sorting\<close> returns for a list of records, \<open>ok\<close> is true
  exactly when the list is not empty, every record has a name and the sort keys are in order.
  With \<open>ok\<close> true it returns no message and the statistics: the number of records, the first
  name and the last name. With \<open>ok\<close> false it returns no statistics and a message: the
  top-level error for the empty list, otherwise all the entries collected over the whole list,
  joined by newlines.
\<close>

theorem validate_sorting_result:
  assumes "validate_sorting L (CitiesList cities) = Inr (ok, msg, st)"
  shows "(ok \<longleftrightarrow>
            cities \<noteq> [] \<and>
            (\<exists>ks. list_all2 (\<lambda>c k. \<exists>nm. c ''name'' = Some nm
                               \<and> validate_normalize_city_name L nm = Inr k) cities ks
                  \<and> sorted ks))
       \<and> (ok \<longrightarrow> msg = None \<and>
            (\<exists>f l. hd cities ''name'' = Some f \<and> last cities ''name'' = Some l
               \<and> st = Some \<lparr>stats_total = length cities, stats_first = f, stats_last = l\<rparr>))
       \<and> (\<not> ok \<longrightarrow> st = None \<and>
            msg = Some (if cities = [] then ustr ''Empty cities array''
                        else py_join [10] (concat (map (expected_entries L cities)
                                                     [0..<length cities]))))"
  using assms
proof (cases rule: validate_sorting_cases)
  case empty
  then show ?thesis by simp
next
  case (defects errors)
  have "errors = concat (map (expected_entries L cities) [0..<length cities])"
    using check_sorting_entries [of L "[]" cities None "[]" errors] defects(2)
    by (simp add: last_named_def tracker_def)
  moreover have "\<not> (\<exists>ks. list_all2 (\<lambda>c k. \<exists>nm. c ''name'' = Some nm
                               \<and> validate_normalize_city_name L nm = Inr k) cities ks
                  \<and> sorted ks)"
    using check_sorting_clean [OF defects(2)] defects(3) by simp
  ultimately show ?thesis using defects by simp
next
  case (clean f l)
  have "\<exists>ks. list_all2 (\<lambda>c k. \<exists>nm. c ''name'' = Some nm
                               \<and> validate_normalize_city_name L nm = Inr k) cities ks
                  \<and> sorted ks"
    using check_sorting_clean [OF clean(2)] by simp
  then show ?thesis using clean by simp
qed

theorem validate_sorting_result_witness:
  "validate_sorting sample_lib (CitiesList [json_city (ustr ''a''), json_city (ustr ''b'')]) =
   Inr (True, None,
        Some \<lparr>stats_total = 2, stats_first = PyStr (ustr ''a''), stats_last = PyStr (ustr ''b'')\<rparr>)
   \<and> (\<exists>ks. list_all2 (\<lambda>c k. \<exists>nm. c ''name'' = Some nm
                         \<and> validate_normalize_city_name sample_lib nm = Inr k)
               [json_city (ustr ''a''), json_city (ustr ''b'')] ks
           \<and> sorted ks)"
  using validate_sorting_result [OF sample_validate_sorted] sample_validate_sorted
  by blast

text \<open>
  C4, as it is stated, fails: for the two records b, a the result has \<open>ok\<close> false and the
  violation, and no statistics.
\<close>

theorem validate_sorting_stats_counterexample:
  "validate_sorting sample_lib (CitiesList [json_city (ustr ''b''), json_city (ustr ''a'')]) =
   Inr (False,
        Some (sorting_violation_message 1 (PyStr (ustr ''b'')) (ustr ''b'') (PyStr (ustr ''a''))
                (ustr ''a'')),
        None)"
  by (simp add: sample_check_swapped del: check_sorting.simps)

text \<open>
  C3, as the code has it. The empty list gives the single top-level error
  \<open>Empty cities array\<close>, with \<open>ok\<close> false. A record without a name also makes the result
  invalid when the loop returns, but as one more entry of the list \<open>errors\<close>, the list that
  holds the sorting violations, and the loop goes on after it.
\<close>

theorem validator_structural_defects:
  "validate_sorting L (CitiesList []) = Inr (False, Some (ustr ''Empty cities array''), None)
   \<and> (\<forall>i errors. i < length cities \<and> (cities ! i) ''name'' = None
          \<and> check_sorting L 0 cities None None [] = Inr errors \<longrightarrow>
        missing_name_message i \<in> set errors
        \<and> validate_sorting L (CitiesList cities) = Inr (False, Some (py_join [10] errors), None))"
proof (intro conjI allI impI)
  show "validate_sorting L (CitiesList []) = Inr (False, Some (ustr ''Empty cities array''), None)"
    by simp
next
  fix i errors
  assume a: "i < length cities \<and> (cities ! i) ''name'' = None
          \<and> check_sorting L 0 cities None None [] = Inr errors"
  then have "errors = concat (map (expected_entries L cities) [0..<length cities])"
    using check_sorting_entries [of L "[]" cities None "[]" errors]
    by (simp add: last_named_def tracker_def)
  moreover have "expected_entries L cities i = [missing_name_message i]"
    using a by (simp add: expected_entries_def)
  ultimately show "missing_name_message i \<in> set errors"
    using a by (auto intro!: bexI [of _ i])
  then have "errors \<noteq> []" by auto
  moreover have "cities \<noteq> []" using a by auto
  ultimately
  show "validate_sorting L (CitiesList cities) = Inr (False, Some (py_join [10] errors), None)"
    using a by simp
qed

theorem validator_structural_defects_witness:
  "validate_sorting sample_lib (CitiesList []) = Inr (False, Some (ustr ''Empty cities array''), None)
   \<and> missing_name_message 1 \<in>
       set [missing_name_message 1,
            sorting_violation_message 2 (PyStr (ustr ''b'')) (ustr ''b'') (PyStr (ustr ''a''))
              (ustr ''a'')]
   \<and> validate_sorting sample_lib
       (CitiesList [json_city (ustr ''b''), unnamed_city, json_city (ustr ''a'')]) =
     Inr (False,
          Some (py_join [10]
                  [missing_name_message 1,
                   sorting_violation_message 2 (PyStr (ustr ''b'')) (ustr ''b'')
                     (PyStr (ustr ''a'')) (ustr ''a'')]),
          None)"
proof -
  note defects =
    validator_structural_defects
      [of sample_lib "[json_city (ustr ''b''), unnamed_city, json_city (ustr ''a'')]"]
  have "1 < length [json_city (ustr ''b''), unnamed_city, json_city (ustr ''a'')]
        \<and> ([json_city (ustr ''b''), unnamed_city, json_city (ustr ''a'')] ! 1) ''name'' = None
        \<and> check_sorting sample_lib 0
            [json_city (ustr ''b''), unnamed_city, json_city (ustr ''a'')] None None [] =
          Inr [missing_name_message 1,
               sorting_violation_message 2 (PyStr (ustr ''b'')) (ustr ''b'') (PyStr (ustr ''a''))
                 (ustr ''a'')]"
    using sample_check_skip by (simp add: json_city_simps)
  from defects [THEN conjunct2, rule_format, OF this] defects [THEN conjunct1]
  show ?thesis by blast
qed

text \<open>
  C3, as it is stated, fails: for the records b, a record without a name, a, the list
  \<open>errors\<close> holds the missing-name entry of index 1 followed by the sorting violation of
  index 2, and the message is the two joined.
\<close>

theorem validator_missing_name_counterexample:
  "check_sorting sample_lib 0 [json_city (ustr ''b''), unnamed_city, json_city (ustr ''a'')]
     None None [] =
   Inr [missing_name_message 1,
        sorting_violation_message 2 (PyStr (ustr ''b'')) (ustr ''b'') (PyStr (ustr ''a'')) (ustr ''a'')]
   \<and> validate_sorting sample_lib
       (CitiesList [json_city (ustr ''b''), unnamed_city, json_city (ustr ''a'')]) =
     Inr (False,
          Some (py_join [10]
                  [missing_name_message 1,
                   sorting_violation_message 2 (PyStr (ustr ''b'')) (ustr ''b'')
                     (PyStr (ustr ''a'')) (ustr ''a'')]),
          None)"
  using sample_check_skip sample_validate_skip by (rule conjI)

end
